theory Spec2Isabelle
  imports Main
begin

section \<open>The session screen: data model\<close>

text \<open>
  The session screen (\<^verbatim>\<open>SessionScreen\<close>, file \<^verbatim>\<open>src/unnamed/part_000\<close>) keeps its state in
  three \<^verbatim>\<open>useState\<close> cells and four \<^verbatim>\<open>useRef\<close> cells. The JavaScript runtime around it
  (the armed intervals, the alerts shown, the calls made on the sound object, the console,
  the promises rejected with nobody awaiting them) is part of the state of the model, so
  that every effect of a handler is a field of the record it returns.

  The handlers run on one thread. The model runs each handler to its end before the
  next event: an \<^verbatim>\<open>await\<close> on the audio engine settles before anything else happens.
\<close>

datatype timer_kind = MainTimer | GraceTimer

datatype alert =
    TrackNotFound
  | LoadFailed
  | SessionComplete
  | SessionFailed
  | PremiumFeature
  | SkipDialog

text \<open>
  A loaded \<^verbatim>\<open>Audio.Sound\<close>. The audio engine is outside the repository; what the screen
  can observe of a sound is whether \<^verbatim>\<open>stopAsync\<close> and \<^verbatim>\<open>unloadAsync\<close> resolve or reject.
\<close>

datatype sound = Sound (stopAsync_ok: bool) (unloadAsync_ok: bool)

datatype audio_call = StopAsync | UnloadAsync

datatype asset = Asset nat

text \<open>
  What the audio engine answers while the screen mounts: whether \<^verbatim>\<open>setAudioModeAsync\<close>
  resolves, and what \<^verbatim>\<open>Audio.Sound.createAsync\<close> gives (\<open>None\<close>: it rejects).
\<close>

record audio_env =
  setAudioMode_ok :: bool
  createAsync_result :: "sound option"

record session =
  isPremium :: bool
  timeRemaining :: int
  isPlaying :: bool
  graceTimeRemaining :: "int option"
  soundRef :: "sound option"
  timerIntervalRef :: "nat option"
  graceTimerRef :: "nat option"
  backgroundTimeRef :: "int option"
  intervals :: "(nat \<times> timer_kind) list"
  next_id :: nat
  alerts :: "alert list"
  audio_calls :: "audio_call list"
  console :: "string list"
  unhandled :: nat
  stops :: "bool list"

text \<open>
  \<open>intervals\<close> holds the intervals armed in the runtime, each with the callback it runs;
  \<open>next_id\<close> is the handle the next \<^verbatim>\<open>setInterval\<close> returns (handles are truthy, so a
  ref holding one is \<open>Some\<close>). \<open>unhandled\<close> counts the promises rejected with no handler.
  \<open>stops\<close> is a history variable: the argument of every call of \<^verbatim>\<open>stopSession\<close>, in
  order. No branch of the model reads it.
\<close>

datatype 'a promise = Fulfilled 'a | Rejected 'a

text \<open>A caller that drops the promise: a rejection is left unhandled.\<close>

fun detach :: "session promise \<Rightarrow> session" where
  "detach (Fulfilled s) = s"
| "detach (Rejected s) = s\<lparr>unhandled := Suc (unhandled s)\<rparr>"

definition GRACE_PERIOD_SECONDS :: int where
  "GRACE_PERIOD_SECONDS = 10"

section \<open>Numbers\<close>

text \<open>
  The countdowns are JavaScript numbers, that is, binary64 doubles. The model holds the
  whole numbers among them as \<open>int\<close> and rounds the result of each subtraction and
  multiplication to the nearest double, ties to the even significand, as the runtime does.

  \<open>spacing m\<close> is the distance between neighbouring doubles at the magnitude \<open>m\<close>: 1
  below \<open>2 ^ 53\<close>, 2 from there to \<open>2 ^ 54\<close>, and doubling with every further binade.
  \<open>nearest_double m\<close> rounds a magnitude and \<open>double_of_int\<close> a signed value. A value
  past the largest finite double stands for the infinity of its sign; the handlers treat
  the two alike, since they only compare a countdown with 1 and subtract 1 from it, and
  the subtraction changes neither.
\<close>

function spacing :: "int \<Rightarrow> int" where
  "spacing m = (if m < 2 ^ 53 then 1 else 2 * spacing (m div 2))"
  by pat_completeness auto
termination
  by (relation "measure nat") auto

declare spacing.simps [simp del]

definition nearest_double :: "int \<Rightarrow> int" where
  "nearest_double m =
     (let u = spacing m; q = m div u; r = m mod u
      in if 2 * r < u then q * u
         else if u < 2 * r then (q + 1) * u
         else if even q then q * u
         else (q + 1) * u)"

definition double_of_int :: "int \<Rightarrow> int" where
  "double_of_int x = (if x < 0 then - nearest_double (- x) else nearest_double x)"

text \<open>The operators \<^verbatim>\<open>-\<close> and \<^verbatim>\<open>*\<close> on whole numbers.\<close>

definition js_minus :: "int \<Rightarrow> int \<Rightarrow> int" where
  "js_minus a b = double_of_int (a - b)"

definition js_times :: "int \<Rightarrow> int \<Rightarrow> int" where
  "js_times a b = double_of_int (a * b)"

section \<open>The runtime: intervals and alerts\<close>

definition setInterval :: "timer_kind \<Rightarrow> session \<Rightarrow> nat \<times> session" where
  "setInterval k s =
     (next_id s, s\<lparr>intervals := intervals s @ [(next_id s, k)], next_id := Suc (next_id s)\<rparr>)"

definition clearInterval :: "nat \<Rightarrow> session \<Rightarrow> session" where
  "clearInterval i s = s\<lparr>intervals := filter (\<lambda>p. fst p \<noteq> i) (intervals s)\<rparr>"

definition show_alert :: "alert \<Rightarrow> session \<Rightarrow> session" where
  "show_alert a s = s\<lparr>alerts := alerts s @ [a]\<rparr>"

definition console_error :: "string \<Rightarrow> session \<Rightarrow> session" where
  "console_error m s = s\<lparr>console := console s @ [m]\<rparr>"

definition audio_call :: "audio_call \<Rightarrow> session \<Rightarrow> session" where
  "audio_call c s = s\<lparr>audio_calls := audio_calls s @ [c]\<rparr>"

section \<open>The track list\<close>

definition musicTracks :: "(string \<times> asset) list" where
  "musicTracks = [(''focus1'', Asset 1), (''focus2'', Asset 2)]"

definition getTrackAssetById :: "string \<Rightarrow> asset option" where
  "getTrackAssetById trackId = map_of musicTracks trackId"

section \<open>The handlers\<close>

definition clearGraceTimer :: "session \<Rightarrow> session" where
  "clearGraceTimer s =
     (case graceTimerRef s of
        None \<Rightarrow> s
      | Some g \<Rightarrow> (clearInterval g s)\<lparr>graceTimerRef := None\<rparr>)"

definition stopSession :: "bool \<Rightarrow> session \<Rightarrow> session promise" where
  "stopSession success s =
     (let s0 = s\<lparr>stops := stops s @ [success]\<rparr>;
          s1 = (case timerIntervalRef s0 of
                  None \<Rightarrow> s0
                | Some t \<Rightarrow> (clearInterval t s0)\<lparr>timerIntervalRef := None\<rparr>);
          s2 = clearGraceTimer s1;
          result = (if success then SessionComplete else SessionFailed)
      in case soundRef s2 of
           None \<Rightarrow> Fulfilled (show_alert result s2)
         | Some sound \<Rightarrow>
             (let s3 = audio_call StopAsync s2 in
              if \<not> stopAsync_ok sound then Rejected s3
              else
                (let s4 = audio_call UnloadAsync s3 in
                 if \<not> unloadAsync_ok sound then Rejected s4
                 else Fulfilled (show_alert result (s4\<lparr>soundRef := None\<rparr>)))))"

definition cleanup :: "session \<Rightarrow> session promise" where
  "cleanup s =
     (let s1 = (case timerIntervalRef s of
                  None \<Rightarrow> s
                | Some t \<Rightarrow> clearInterval t s);
          s2 = clearGraceTimer s1
      in case soundRef s2 of
           None \<Rightarrow> Fulfilled s2
         | Some sound \<Rightarrow>
             (let s3 = audio_call StopAsync s2 in
              if \<not> stopAsync_ok sound
              then Fulfilled (console_error ''Error cleaning up audio:'' s3)
              else
                (let s4 = audio_call UnloadAsync s3 in
                 if \<not> unloadAsync_ok sound
                 then Fulfilled (console_error ''Error cleaning up audio:'' s4)
                 else Fulfilled s4)))"

definition handleSessionComplete :: "session \<Rightarrow> session" where
  "handleSessionComplete s = detach (stopSession True s)"

definition handleGracePeriodExpired :: "session \<Rightarrow> session" where
  "handleGracePeriodExpired s = detach (stopSession False (clearGraceTimer s))"

text \<open>The callback of the main interval: the updater given to \<^verbatim>\<open>setTimeRemaining\<close>.\<close>

definition mainTick :: "session \<Rightarrow> session" where
  "mainTick s =
     (if timeRemaining s \<le> 1
      then (handleSessionComplete s)\<lparr>timeRemaining := 0\<rparr>
      else s\<lparr>timeRemaining := js_minus (timeRemaining s) 1\<rparr>)"

text \<open>The callback of a grace interval: the updater given to \<^verbatim>\<open>setGraceTimeRemaining\<close>.\<close>

definition graceTick :: "session \<Rightarrow> session" where
  "graceTick s =
     (case graceTimeRemaining s of
        None \<Rightarrow> s
      | Some prev \<Rightarrow>
          if prev \<le> 1
          then (handleGracePeriodExpired s)\<lparr>graceTimeRemaining := Some 0\<rparr>
          else s\<lparr>graceTimeRemaining := Some (js_minus prev 1)\<rparr>)"

definition startTimer :: "session \<Rightarrow> session" where
  "startTimer s =
     (let (h, s') = setInterval MainTimer s in s'\<lparr>timerIntervalRef := Some h\<rparr>)"

definition initializeAudio :: "audio_env \<Rightarrow> string \<Rightarrow> session \<Rightarrow> session" where
  "initializeAudio env trackId s =
     (if \<not> setAudioMode_ok env
      then show_alert LoadFailed (console_error ''Error initializing audio:'' s)
      else
        (case getTrackAssetById trackId of
           None \<Rightarrow> show_alert TrackNotFound s
         | Some trackAsset \<Rightarrow>
             (case createAsync_result env of
                None \<Rightarrow> show_alert LoadFailed (console_error ''Error initializing audio:'' s)
              | Some sound \<Rightarrow> s\<lparr>soundRef := Some sound\<rparr>)))"

text \<open>\<open>now\<close> is what \<^verbatim>\<open>Date.now()\<close> returns when the handler runs.\<close>

definition handleAppBackground :: "int \<Rightarrow> session \<Rightarrow> session" where
  "handleAppBackground now s =
     (if \<not> isPremium s
      then
        (let s1 = s\<lparr>backgroundTimeRef := Some now,
                     graceTimeRemaining := Some GRACE_PERIOD_SECONDS\<rparr>;
             (h, s2) = setInterval GraceTimer s1
         in s2\<lparr>graceTimerRef := Some h\<rparr>)
      else s)"

definition handleAppForeground :: "session \<Rightarrow> session" where
  "handleAppForeground s =
     (if \<not> isPremium s \<and> graceTimerRef s \<noteq> None
      then (clearGraceTimer s)\<lparr>graceTimeRemaining := None, backgroundTimeRef := None\<rparr>
      else s)"

definition handleAppStateChange :: "int \<Rightarrow> string \<Rightarrow> session \<Rightarrow> session" where
  "handleAppStateChange now nextAppState s =
     (if nextAppState = ''background'' \<or> nextAppState = ''inactive''
      then handleAppBackground now s
      else if nextAppState = ''active''
      then handleAppForeground s
      else s)"

definition handleSkip :: "session \<Rightarrow> session" where
  "handleSkip s =
     (if \<not> isPremium s then show_alert PremiumFeature s else show_alert SkipDialog s)"

text \<open>The \<^verbatim>\<open>onPress\<close> of the Skip button of the dialog that \<open>handleSkip\<close> opens.\<close>

definition skipDialog_onSkip :: "session \<Rightarrow> session" where
  "skipDialog_onSkip s = detach (stopSession True s)"

text \<open>
  The screen as it mounts: the state cells and refs at their initial values, then the
  mount effect, which calls \<^verbatim>\<open>initializeAudio()\<close> and \<^verbatim>\<open>startTimer()\<close> one after the other.
  \<open>duration\<close> is in minutes, a whole number.
\<close>

definition initial :: "int \<Rightarrow> bool \<Rightarrow> session" where
  "initial duration premium =
     \<lparr>isPremium = premium, timeRemaining = js_times duration 60, isPlaying = True,
      graceTimeRemaining = None, soundRef = None, timerIntervalRef = None,
      graceTimerRef = None, backgroundTimeRef = None, intervals = [], next_id = 1,
      alerts = [], audio_calls = [], console = [], unhandled = 0, stops = []\<rparr>"

definition mount :: "audio_env \<Rightarrow> int \<Rightarrow> string \<Rightarrow> bool \<Rightarrow> session" where
  "mount env duration trackId premium =
     startTimer (initializeAudio env trackId (initial duration premium))"

section \<open>Events\<close>

text \<open>
  What the runtime delivers to the screen: an app-state change, the firing of an
  interval (a cleared interval never fires), a press on the skip button, a press on the
  Skip button of the dialog. The OK button of a result alert leaves the screen and is not
  an event of the model.
\<close>

datatype event =
    AppStateChange int string
  | IntervalFire nat
  | SkipPressed
  | SkipConfirmed

definition fire :: "nat \<Rightarrow> session \<Rightarrow> session" where
  "fire i s =
     (case map_of (intervals s) i of
        None \<Rightarrow> s
      | Some MainTimer \<Rightarrow> mainTick s
      | Some GraceTimer \<Rightarrow> graceTick s)"

fun step :: "event \<Rightarrow> session \<Rightarrow> session" where
  "step (AppStateChange now st) s = handleAppStateChange now st s"
| "step (IntervalFire i) s = fire i s"
| "step SkipPressed s = handleSkip s"
| "step SkipConfirmed s = skipDialog_onSkip s"

fun run :: "event list \<Rightarrow> session \<Rightarrow> session" where
  "run [] s = s"
| "run (e # es) s = run es (step e s)"

section \<open>The phase of a session\<close>

text \<open>
  The screen has no phase variable. The outcome of a session is decided by the first call
  of \<^verbatim>\<open>stopSession\<close>: completed when its argument is true, failed otherwise. Before that
  the session is in its grace period when a grace interval is referenced, and running
  otherwise. A skip ends in \<^verbatim>\<open>stopSession(true)\<close> as the countdown does, so no state of the
  screen is \<open>Skipped\<close>.
\<close>

datatype phase = Running | GraceActive | Completed | Failed | Skipped

definition phase_of :: "session \<Rightarrow> phase" where
  "phase_of s =
     (case stops s of
        [] \<Rightarrow> (if graceTimerRef s \<noteq> None then GraceActive else Running)
      | success # _ \<Rightarrow> (if success then Completed else Failed))"

definition armed :: "nat \<Rightarrow> session \<Rightarrow> bool" where
  "armed i s = (i \<in> fst ` set (intervals s))"

text \<open>
  The audio teardown of \<^verbatim>\<open>stopSession\<close> goes through when no sound is loaded or when
  both calls on the loaded sound resolve.
\<close>

definition teardown_ok :: "session \<Rightarrow> bool" where
  "teardown_ok s =
     (case soundRef s of
        None \<Rightarrow> True
      | Some sound \<Rightarrow> stopAsync_ok sound \<and> unloadAsync_ok sound)"

section \<open>Sessions to run the model on\<close>

abbreviation good_audio :: audio_env where
  "good_audio \<equiv> \<lparr>setAudioMode_ok = True, createAsync_result = Some (Sound True True)\<rparr>"

text \<open>A sound whose \<^verbatim>\<open>stopAsync\<close> rejects.\<close>

abbreviation stuck_audio :: audio_env where
  "stuck_audio \<equiv> \<lparr>setAudioMode_ok = True, createAsync_result = Some (Sound False True)\<rparr>"

text \<open>Thirty minutes on track \<^verbatim>\<open>focus1\<close>, for a free and for a premium user.\<close>

abbreviation free_session :: session where
  "free_session \<equiv> mount good_audio 30 ''focus1'' False"

abbreviation premium_session :: session where
  "premium_session \<equiv> mount good_audio 30 ''focus1'' True"

text \<open>A one-minute session of a free user, three seconds before its end and at its end.\<close>

abbreviation late_session :: session where
  "late_session \<equiv> run (replicate 57 (IntervalFire 1)) (mount good_audio 1 ''focus1'' False)"

abbreviation ended_session :: session where
  "ended_session \<equiv> run (replicate 60 (IntervalFire 1)) (mount good_audio 1 ''focus1'' False)"

text \<open>
  A session of ten thousand million million minutes: its countdown starts at
  600000000000000000 seconds, where neighbouring doubles are 128 apart.
\<close>

abbreviation far_session :: session where
  "far_session \<equiv> mount good_audio 10000000000000000 ''focus1'' False"

section \<open>Basic facts\<close>

text \<open>
  Up to \<open>2 ^ 53\<close> in magnitude every whole number is a double, so the arithmetic is
  exact there; rounding never changes the sign.
\<close>

lemma spacing_safe: "m < 2 ^ 53 \<Longrightarrow> spacing m = 1"
  by (simp add: spacing.simps)

lemma spacing_pos: "0 < spacing m"
  by (induction m rule: spacing.induct) (subst spacing.simps, simp)

lemma nearest_double_safe: "0 \<le> m \<Longrightarrow> m \<le> 2 ^ 53 \<Longrightarrow> nearest_double m = m"
proof (cases "m < 2 ^ 53")
  case True
  then have "spacing m = 1" by (rule spacing_safe)
  then show ?thesis by (simp add: nearest_double_def)
next
  case False
  assume "m \<le> 2 ^ 53"
  with False have m: "m = 9007199254740992" by simp
  have "spacing 9007199254740992 = 2"
    by (subst spacing.simps, simp, subst spacing.simps, simp)
  then show ?thesis by (simp add: nearest_double_def m)
qed

lemma nearest_double_nonneg: "0 \<le> m \<Longrightarrow> 0 \<le> nearest_double m"
proof -
  assume m: "0 \<le> m"
  define u where "u = spacing m"
  have u: "0 < u" by (simp add: u_def spacing_pos)
  with m have "0 \<le> m div u" by (simp add: pos_imp_zdiv_nonneg_iff)
  with u have "0 \<le> m div u * u" "0 \<le> (m div u + 1) * u" by simp_all
  then show ?thesis
    by (simp add: nearest_double_def Let_def u_def [symmetric])
qed

lemma double_of_int_safe: "\<bar>x\<bar> \<le> 2 ^ 53 \<Longrightarrow> double_of_int x = x"
  by (simp add: double_of_int_def nearest_double_safe)

lemma double_of_int_nonpos: "x \<le> 0 \<Longrightarrow> double_of_int x \<le> 0"
  using nearest_double_nonneg [of "- x"] nearest_double_safe [of 0]
  by (cases "x = 0") (simp_all add: double_of_int_def)

lemmas runtime_defs = setInterval_def clearInterval_def show_alert_def console_error_def
  audio_call_def

lemmas handler_defs = mount_def initial_def startTimer_def initializeAudio_def
  getTrackAssetById_def musicTracks_def setInterval_def clearInterval_def show_alert_def
  console_error_def audio_call_def clearGraceTimer_def stopSession_def cleanup_def
  handleSessionComplete_def handleGracePeriodExpired_def mainTick_def graceTick_def
  handleAppBackground_def handleAppForeground_def handleAppStateChange_def handleSkip_def
  skipDialog_onSkip_def fire_def phase_of_def armed_def GRACE_PERIOD_SECONDS_def Let_def
  js_minus_def js_times_def double_of_int_safe

text \<open>A tick that is not the last one, on a countdown that the doubles count exactly.\<close>

lemma mainTick_safe:
  "1 < timeRemaining s \<Longrightarrow> timeRemaining s \<le> 2 ^ 53 \<Longrightarrow>
     mainTick s = s\<lparr>timeRemaining := timeRemaining s - 1\<rparr>"
  by (simp add: mainTick_def js_minus_def double_of_int_safe)

lemma graceTick_safe:
  "graceTimeRemaining s = Some prev \<Longrightarrow> 1 < prev \<Longrightarrow> prev \<le> 2 ^ 53 \<Longrightarrow>
     graceTick s = s\<lparr>graceTimeRemaining := Some (prev - 1)\<rparr>"
  by (simp add: graceTick_def js_minus_def double_of_int_safe)

text \<open>Events run one after the other; an interval that is not armed does not fire.\<close>

lemma run_append: "run (xs @ ys) s = run ys (run xs s)"
  by (induction xs arbitrary: s) simp_all

lemma fire_not_armed: "\<not> armed i s \<Longrightarrow> fire i s = s"
proof -
  assume "\<not> armed i s"
  then have "map_of (intervals s) i = None"
    by (simp add: armed_def map_of_eq_None_iff)
  then show ?thesis by (simp add: fire_def)
qed

text \<open>
  What \<^verbatim>\<open>clearGraceTimer\<close> and \<^verbatim>\<open>stopSession\<close> leave in each cell, ref and runtime
  field, whether the audio teardown goes through or not.
\<close>

lemma clearGraceTimer_fields:
  "graceTimerRef (clearGraceTimer s) = None"
  "timerIntervalRef (clearGraceTimer s) = timerIntervalRef s"
  "timeRemaining (clearGraceTimer s) = timeRemaining s"
  "graceTimeRemaining (clearGraceTimer s) = graceTimeRemaining s"
  "soundRef (clearGraceTimer s) = soundRef s"
  "isPremium (clearGraceTimer s) = isPremium s"
  "stops (clearGraceTimer s) = stops s"
  "alerts (clearGraceTimer s) = alerts s"
  "audio_calls (clearGraceTimer s) = audio_calls s"
  "next_id (clearGraceTimer s) = next_id s"
  "intervals (clearGraceTimer s) = filter (\<lambda>p. Some (fst p) \<noteq> graceTimerRef s) (intervals s)"
  by (simp_all add: clearGraceTimer_def clearInterval_def split: option.splits)

lemma stopSession_fields:
  "graceTimerRef (detach (stopSession b s)) = None"
  "timerIntervalRef (detach (stopSession b s)) = None"
  "timeRemaining (detach (stopSession b s)) = timeRemaining s"
  "graceTimeRemaining (detach (stopSession b s)) = graceTimeRemaining s"
  "isPremium (detach (stopSession b s)) = isPremium s"
  "stops (detach (stopSession b s)) = stops s @ [b]"
  "next_id (detach (stopSession b s)) = next_id s"
  "intervals (detach (stopSession b s)) =
     filter (\<lambda>p. Some (fst p) \<noteq> timerIntervalRef s \<and> Some (fst p) \<noteq> graceTimerRef s) (intervals s)"
  by (auto simp add: stopSession_def Let_def clearGraceTimer_fields runtime_defs
      split: option.splits intro: filter_cong)

lemma stopSession_alerts:
  "teardown_ok s \<Longrightarrow> alerts (detach (stopSession b s)) = alerts s @ [if b then SessionComplete else SessionFailed]"
  by (auto simp add: stopSession_def Let_def clearGraceTimer_fields runtime_defs teardown_ok_def
      split: option.splits)

text \<open>
  The main interval alone: each tick before the last takes one second off the countdown,
  the last one stops the session, and no tick follows it.
\<close>

lemma main_ticks_before:
  assumes "map_of (intervals s) t = Some MainTimer" and "int k < timeRemaining s"
    and "timeRemaining s \<le> 2 ^ 53"
  shows "run (replicate k (IntervalFire t)) s = s\<lparr>timeRemaining := timeRemaining s - int k\<rparr>"
  using assms
proof (induction k)
  case 0
  then show ?case by simp
next
  case (Suc k)
  then have "run (replicate k (IntervalFire t)) s = s\<lparr>timeRemaining := timeRemaining s - int k\<rparr>"
    by simp
  moreover have "replicate (Suc k) (IntervalFire t) = replicate k (IntervalFire t) @ [IntervalFire t]"
    by (simp add: replicate_append_same)
  ultimately show ?case using Suc.prems
    by (simp add: run_append fire_def mainTick_safe del: replicate_Suc)
qed

lemma main_tick_last:
  assumes "timerIntervalRef s = Some t" and "map_of (intervals s) t = Some MainTimer"
    and "timeRemaining s = 1"
  shows "fire t s = (detach (stopSession True s))\<lparr>timeRemaining := 0\<rparr>"
  using assms by (simp add: fire_def mainTick_def handleSessionComplete_def)

lemma stopped_not_armed:
  "timerIntervalRef s = Some t \<Longrightarrow> \<not> armed t (detach (stopSession b s))"
  "graceTimerRef s = Some g \<Longrightarrow> \<not> armed g (detach (stopSession b s))"
  by (auto simp add: armed_def stopSession_fields)

lemma fires_not_armed: "\<not> armed i s \<Longrightarrow> run (replicate k (IntervalFire i)) s = s"
  by (induction k) (simp_all add: fire_not_armed)

lemma main_ticks_from:
  assumes ref: "timerIntervalRef s = Some t" and arm: "map_of (intervals s) t = Some MainTimer"
    and pos: "0 < timeRemaining s" and late: "timeRemaining s \<le> int k"
    and bound: "timeRemaining s \<le> 2 ^ 53"
  shows "run (replicate k (IntervalFire t)) s =
           (detach (stopSession True (s\<lparr>timeRemaining := 1\<rparr>)))\<lparr>timeRemaining := 0\<rparr>"
proof -
  define n where "n = nat (timeRemaining s) - 1"
  define s1 where "s1 = s\<lparr>timeRemaining := 1\<rparr>"
  define s2 where "s2 = (detach (stopSession True s1))\<lparr>timeRemaining := 0\<rparr>"
  have k: "k = n + (1 + (k - Suc n))"
    using pos late by (simp add: n_def)
  have "replicate k (IntervalFire t) =
          replicate n (IntervalFire t) @ [IntervalFire t] @ replicate (k - Suc n) (IntervalFire t)"
    by (subst k) (simp only: replicate_add, simp)
  then have split: "run (replicate k (IntervalFire t)) s =
      run (replicate (k - Suc n) (IntervalFire t)) (fire t (run (replicate n (IntervalFire t)) s))"
    by (simp add: run_append)
  have "int n < timeRemaining s"
    using pos by (simp add: n_def)
  then have "run (replicate n (IntervalFire t)) s = s\<lparr>timeRemaining := timeRemaining s - int n\<rparr>"
    using arm bound by (intro main_ticks_before)
  moreover have "timeRemaining s - int n = 1"
    using pos by (simp add: n_def)
  ultimately have before: "run (replicate n (IntervalFire t)) s = s1"
    by (simp add: s1_def)
  have last: "fire t s1 = s2"
    unfolding s2_def using ref arm by (intro main_tick_last) (simp_all add: s1_def)
  have "\<not> armed t (detach (stopSession True s1))"
    using ref by (intro stopped_not_armed(1)) (simp add: s1_def)
  then have "\<not> armed t s2"
    by (simp add: s2_def armed_def)
  then have "run (replicate (k - Suc n) (IntervalFire t)) s2 = s2"
    by (rule fires_not_armed)
  with split before last show ?thesis
    by (simp add: s2_def s1_def)
qed

text \<open>A call of \<^verbatim>\<open>stopSession\<close> that ran to its end has set the three refs to null.\<close>

lemma stopSession_Fulfilled_refs:
  assumes "stopSession b s = Fulfilled s1"
  shows "timerIntervalRef s1 = None" and "graceTimerRef s1 = None" and "soundRef s1 = None"
    and "stops s1 \<noteq> []"
  using assms
  by (auto simp add: stopSession_def Let_def clearGraceTimer_fields runtime_defs
      split: option.splits if_splits)

text \<open>
  The mounted screen, whatever the duration, the track and the answers of the audio
  engine: the main interval is armed under handle 1 and nothing has stopped the session.
\<close>

lemma mount_ready:
  "timerIntervalRef (mount env duration trackId premium) = Some 1"
  "intervals (mount env duration trackId premium) = [(1, MainTimer)]"
  "next_id (mount env duration trackId premium) = 2"
  "stops (mount env duration trackId premium) = []"
  "timeRemaining (mount env duration trackId premium) = js_times duration 60"
  "isPremium (mount env duration trackId premium) = premium"
  "phase_of (mount env duration trackId premium) = Running"
  by (simp_all add: mount_def initial_def startTimer_def initializeAudio_def setInterval_def
      show_alert_def console_error_def phase_of_def split: option.splits)

text \<open>The background handler for a free user, written out.\<close>

lemma handleAppBackground_free:
  assumes "\<not> isPremium s"
  shows "handleAppBackground now s =
     s\<lparr>backgroundTimeRef := Some now, graceTimeRemaining := Some 10,
       intervals := intervals s @ [(next_id s, GraceTimer)], next_id := Suc (next_id s),
       graceTimerRef := Some (next_id s)\<rparr>"
  using assms by (simp add: handleAppBackground_def setInterval_def GRACE_PERIOD_SECONDS_def)

text \<open>
  The main and the grace interval side by side: once no interval is armed, firings change
  nothing; while neither countdown runs out, every firing takes one second off its own
  countdown.
\<close>

lemma run_fires_none_armed:
  "intervals s = [] \<Longrightarrow> \<forall>e \<in> set evs. \<exists>i. e = IntervalFire i \<Longrightarrow> run evs s = s"
  by (induction evs) (auto simp add: fire_def)

lemma grace_window:
  assumes "intervals s = [(t, MainTimer), (g, GraceTimer)]" and "t \<noteq> g"
    and "graceTimeRemaining s = Some gr"
    and "set evs \<subseteq> {IntervalFire t, IntervalFire g}"
    and "int (count_list evs (IntervalFire t)) < timeRemaining s"
    and "int (count_list evs (IntervalFire g)) < gr"
    and "timeRemaining s \<le> 2 ^ 53" and "gr \<le> 2 ^ 53"
  shows "run evs s =
     s\<lparr>timeRemaining := timeRemaining s - int (count_list evs (IntervalFire t)),
       graceTimeRemaining := Some (gr - int (count_list evs (IntervalFire g)))\<rparr>"
  using assms
proof (induction evs arbitrary: s gr)
  case Nil
  then show ?case by simp
next
  case (Cons e evs)
  from Cons.prems(4) consider "e = IntervalFire t" | "e = IntervalFire g" by auto
  then show ?case
  proof cases
    case 1
    define s' where "s' = s\<lparr>timeRemaining := timeRemaining s - 1\<rparr>"
    have st: "step e s = s'"
      using 1 Cons.prems by (simp add: fire_def mainTick_safe s'_def)
    have "run evs s' =
       s'\<lparr>timeRemaining := timeRemaining s' - int (count_list evs (IntervalFire t)),
          graceTimeRemaining := Some (gr - int (count_list evs (IntervalFire g)))\<rparr>"
      using 1 Cons.prems by (intro Cons.IH) (auto simp add: s'_def)
    then show ?thesis
      using 1 Cons.prems(2) st by (simp add: s'_def)
  next
    case 2
    define s' where "s' = s\<lparr>graceTimeRemaining := Some (gr - 1)\<rparr>"
    have st: "step e s = s'"
      using 2 Cons.prems by (simp add: fire_def graceTick_safe s'_def)
    have "run evs s' =
       s'\<lparr>timeRemaining := timeRemaining s' - int (count_list evs (IntervalFire t)),
          graceTimeRemaining := Some (gr - 1 - int (count_list evs (IntervalFire g)))\<rparr>"
      using 2 Cons.prems by (intro Cons.IH) (auto simp add: s'_def)
    then show ?thesis
      using 2 Cons.prems(2) st by (simp add: s'_def)
  qed
qed

lemma phase_RunningD:
  "phase_of s = Running \<Longrightarrow> stops s = [] \<and> graceTimerRef s = None"
  by (auto simp add: phase_of_def split: list.splits if_splits)


text \<open>
  The three ways a stay in the background ends for a free user: the return in time, the
  tenth tick of the grace interval, and the last tick of the countdown.
\<close>

lemma background_enter:
  assumes "\<not> isPremium s" and "st = ''background'' \<or> st = ''inactive''"
  shows "handleAppStateChange now st s =
     s\<lparr>backgroundTimeRef := Some now, graceTimeRemaining := Some 10,
       intervals := intervals s @ [(next_id s, GraceTimer)], next_id := Suc (next_id s),
       graceTimerRef := Some (next_id s)\<rparr>"
  using assms by (auto simp add: handleAppStateChange_def handleAppBackground_free)

lemma returned_in_time:
  assumes free: "\<not> isPremium s" and st: "st = ''background'' \<or> st = ''inactive''"
    and only: "intervals s = [(t, MainTimer)]"
    and handle: "next_id s \<noteq> t"
    and bound: "timeRemaining s \<le> 2 ^ 53"
    and evs: "set evs \<subseteq> {IntervalFire t, IntervalFire (next_id s)}"
    and main: "int (count_list evs (IntervalFire t)) < timeRemaining s"
    and early: "int (count_list evs (IntervalFire (next_id s))) < 10"
  shows "run (AppStateChange now st # evs @ [AppStateChange now' ''active'']) s =
     s\<lparr>timeRemaining := timeRemaining s - int (count_list evs (IntervalFire t)),
       next_id := Suc (next_id s), graceTimeRemaining := None, backgroundTimeRef := None,
       graceTimerRef := None\<rparr>"
proof -
  define b where "b = handleAppStateChange now st s"
  have b: "b = s\<lparr>backgroundTimeRef := Some now, graceTimeRemaining := Some 10,
       intervals := [(t, MainTimer), (next_id s, GraceTimer)], next_id := Suc (next_id s),
       graceTimerRef := Some (next_id s)\<rparr>"
    unfolding b_def using free st only by (simp add: background_enter)
  have "run evs b =
     b\<lparr>timeRemaining := timeRemaining b - int (count_list evs (IntervalFire t)),
       graceTimeRemaining := Some (10 - int (count_list evs (IntervalFire (next_id s))))\<rparr>"
    using handle evs main early bound by (intro grace_window) (simp_all add: b)
  then have "run (evs @ [AppStateChange now' ''active'']) b =
     handleAppStateChange now' ''active''
       (b\<lparr>timeRemaining := timeRemaining b - int (count_list evs (IntervalFire t)),
          graceTimeRemaining := Some (10 - int (count_list evs (IntervalFire (next_id s))))\<rparr>)"
    by (simp add: run_append)
  also have "\<dots> = s\<lparr>timeRemaining := timeRemaining s - int (count_list evs (IntervalFire t)),
       next_id := Suc (next_id s), graceTimeRemaining := None, backgroundTimeRef := None,
       graceTimerRef := None\<rparr>"
    using free handle only
    by (simp add: b handleAppStateChange_def handleAppForeground_def clearGraceTimer_def
        clearInterval_def)
  finally show ?thesis
    by (simp add: b_def)
qed

lemma grace_expired:
  assumes free: "\<not> isPremium s" and st: "st = ''background'' \<or> st = ''inactive''"
    and only: "intervals s = [(t, MainTimer)]"
    and ref: "timerIntervalRef s = Some t"
    and fresh: "stops s = []"
    and handle: "next_id s \<noteq> t"
    and bound: "timeRemaining s \<le> 2 ^ 53"
    and pre: "set pre \<subseteq> {IntervalFire t, IntervalFire (next_id s)}"
    and post: "set post \<subseteq> {IntervalFire t, IntervalFire (next_id s)}"
    and main: "int (count_list pre (IntervalFire t)) < timeRemaining s"
    and nine: "count_list pre (IntervalFire (next_id s)) = 9"
  shows "stops (run (AppStateChange now st # pre @ IntervalFire (next_id s) # post) s) = [False]"
    and "intervals (run (AppStateChange now st # pre @ IntervalFire (next_id s) # post) s) = []"
    and "timeRemaining (run (AppStateChange now st # pre @ IntervalFire (next_id s) # post) s)
           = timeRemaining s - int (count_list pre (IntervalFire t))"
    and "teardown_ok s \<Longrightarrow>
           alerts (run (AppStateChange now st # pre @ IntervalFire (next_id s) # post) s)
             = alerts s @ [SessionFailed]"
proof -
  define g where "g = next_id s"
  define b where "b = handleAppStateChange now st s"
  have b: "b = s\<lparr>backgroundTimeRef := Some now, graceTimeRemaining := Some 10,
       intervals := [(t, MainTimer), (g, GraceTimer)], next_id := Suc g,
       graceTimerRef := Some g\<rparr>"
    unfolding b_def g_def using free st only by (simp add: background_enter)
  define w where "w = b\<lparr>timeRemaining := timeRemaining s - int (count_list pre (IntervalFire t)),
       graceTimeRemaining := Some 1\<rparr>"
  have "run pre b =
     b\<lparr>timeRemaining := timeRemaining b - int (count_list pre (IntervalFire t)),
       graceTimeRemaining := Some (10 - int (count_list pre (IntervalFire g)))\<rparr>"
    using handle pre main nine bound by (intro grace_window) (auto simp add: b g_def)
  then have pre_run: "run pre b = w"
    using nine by (simp add: w_def b g_def)
  define x where "x = (detach (stopSession False (clearGraceTimer w)))\<lparr>graceTimeRemaining := Some 0\<rparr>"
  have fire: "step (IntervalFire g) w = x"
    using handle
    by (simp add: fire_def w_def b g_def graceTick_def handleGracePeriodExpired_def x_def)
  have xi: "intervals x = []"
    using handle ref
    by (auto simp add: x_def stopSession_fields clearGraceTimer_fields w_def b g_def)
  have "\<forall>e \<in> set post. \<exists>i. e = IntervalFire i"
    using post by auto
  with xi have "run post x = x"
    by (rule run_fires_none_armed)
  with pre_run fire
  have eq: "run (AppStateChange now st # pre @ IntervalFire (next_id s) # post) s = x"
    by (simp add: run_append b_def g_def)
  show "stops (run (AppStateChange now st # pre @ IntervalFire (next_id s) # post) s) = [False]"
    unfolding eq using fresh by (simp add: x_def stopSession_fields clearGraceTimer_fields w_def b)
  show "intervals (run (AppStateChange now st # pre @ IntervalFire (next_id s) # post) s) = []"
    unfolding eq by (rule xi)
  show "timeRemaining (run (AppStateChange now st # pre @ IntervalFire (next_id s) # post) s)
           = timeRemaining s - int (count_list pre (IntervalFire t))"
    unfolding eq by (simp add: x_def stopSession_fields clearGraceTimer_fields w_def b)
  show "alerts (run (AppStateChange now st # pre @ IntervalFire (next_id s) # post) s)
             = alerts s @ [SessionFailed]"
    if "teardown_ok s"
  proof -
    from that have "teardown_ok (clearGraceTimer w)"
      by (simp add: teardown_ok_def clearGraceTimer_fields w_def b)
    then have "alerts (detach (stopSession False (clearGraceTimer w))) =
        alerts (clearGraceTimer w) @ [SessionFailed]"
      using stopSession_alerts [of "clearGraceTimer w" False] by simp
    then show ?thesis
      unfolding eq by (simp add: x_def clearGraceTimer_fields w_def b)
  qed
qed

lemma countdown_first:
  assumes free: "\<not> isPremium s" and st: "st = ''background'' \<or> st = ''inactive''"
    and only: "intervals s = [(t, MainTimer)]"
    and ref: "timerIntervalRef s = Some t"
    and fresh: "stops s = []"
    and handle: "next_id s \<noteq> t"
    and bound: "timeRemaining s \<le> 2 ^ 53"
    and pre: "set pre \<subseteq> {IntervalFire t, IntervalFire (next_id s)}"
    and post: "set post \<subseteq> {IntervalFire t, IntervalFire (next_id s)}"
    and last: "int (count_list pre (IntervalFire t)) = timeRemaining s - 1"
    and early: "int (count_list pre (IntervalFire (next_id s))) < 10"
  shows "stops (run (AppStateChange now st # pre @ IntervalFire t # post) s) = [True]"
    and "intervals (run (AppStateChange now st # pre @ IntervalFire t # post) s) = []"
    and "timeRemaining (run (AppStateChange now st # pre @ IntervalFire t # post) s) = 0"
    and "run (AppStateChange now st # pre @ IntervalFire t # post @ [AppStateChange now' ''active'']) s
           = run (AppStateChange now st # pre @ IntervalFire t # post) s"
    and "teardown_ok s \<Longrightarrow>
           alerts (run (AppStateChange now st # pre @ IntervalFire t # post) s)
             = alerts s @ [SessionComplete]"
proof -
  define g where "g = next_id s"
  define b where "b = handleAppStateChange now st s"
  have b: "b = s\<lparr>backgroundTimeRef := Some now, graceTimeRemaining := Some 10,
       intervals := [(t, MainTimer), (g, GraceTimer)], next_id := Suc g,
       graceTimerRef := Some g\<rparr>"
    unfolding b_def g_def using free st only by (simp add: background_enter)
  define w where "w = b\<lparr>timeRemaining := 1,
       graceTimeRemaining := Some (10 - int (count_list pre (IntervalFire g)))\<rparr>"
  have "run pre b =
     b\<lparr>timeRemaining := timeRemaining b - int (count_list pre (IntervalFire t)),
       graceTimeRemaining := Some (10 - int (count_list pre (IntervalFire g)))\<rparr>"
    using handle pre last early bound by (intro grace_window) (auto simp add: b g_def)
  then have pre_run: "run pre b = w"
    using last by (simp add: w_def b)
  define x where "x = (detach (stopSession True w))\<lparr>timeRemaining := 0\<rparr>"
  have fire: "step (IntervalFire t) w = x"
    by (simp add: fire_def w_def b mainTick_def handleSessionComplete_def x_def)
  have xi: "intervals x = []"
    using handle ref
    by (auto simp add: x_def stopSession_fields w_def b g_def)
  have "\<forall>e \<in> set post. \<exists>i. e = IntervalFire i"
    using post by auto
  with xi have "run post x = x"
    by (rule run_fires_none_armed)
  with pre_run fire
  have eq: "run (AppStateChange now st # pre @ IntervalFire t # post) s = x"
    by (simp add: run_append b_def)
  show "stops (run (AppStateChange now st # pre @ IntervalFire t # post) s) = [True]"
    unfolding eq using fresh by (simp add: x_def stopSession_fields w_def b)
  show "intervals (run (AppStateChange now st # pre @ IntervalFire t # post) s) = []"
    unfolding eq by (rule xi)
  show "timeRemaining (run (AppStateChange now st # pre @ IntervalFire t # post) s) = 0"
    unfolding eq by (simp add: x_def)
  have "handleAppStateChange now' ''active'' x = x"
    by (simp add: handleAppStateChange_def handleAppForeground_def x_def stopSession_fields)
  then have "run ((AppStateChange now st # pre @ IntervalFire t # post) @ [AppStateChange now' ''active'']) s = x"
    unfolding run_append eq by simp
  then show "run (AppStateChange now st # pre @ IntervalFire t # post @ [AppStateChange now' ''active'']) s
           = run (AppStateChange now st # pre @ IntervalFire t # post) s"
    unfolding eq by simp
  show "alerts (run (AppStateChange now st # pre @ IntervalFire t # post) s)
             = alerts s @ [SessionComplete]"
    if "teardown_ok s"
  proof -
    from that have "teardown_ok w"
      by (simp add: teardown_ok_def w_def b)
    then have "alerts (detach (stopSession True w)) = alerts w @ [SessionComplete]"
      using stopSession_alerts [of w True] by simp
    then show ?thesis
      unfolding eq by (simp add: x_def w_def b)
  qed
qed


section \<open>Stopping a session twice\<close>

text \<open>
  C1, as the specification has it: a second call of \<^verbatim>\<open>stopSession\<close> changes nothing that
  can be observed and notifies nobody. The screen has no guard on a stopped session: the
  second call shows the result alert again. Here a thirty-minute session is stopped twice;
  two result alerts are on screen, and the second can contradict the first.
\<close>

theorem stopSession_again_alerts_again:
  "stopSession True free_session = Fulfilled (detach (stopSession True free_session))
   \<and> alerts (detach (stopSession True free_session)) = [SessionComplete]
   \<and> alerts (detach (stopSession True (detach (stopSession True free_session))))
       = [SessionComplete, SessionComplete]
   \<and> alerts (detach (stopSession False (detach (stopSession True free_session))))
       = [SessionComplete, SessionFailed]"
  by (simp add: handler_defs)

text \<open>
  C1, amended: after a call of \<^verbatim>\<open>stopSession\<close> that ran to its end, a second call leaves
  the phase, the countdown, the grace countdown, the refs and the armed intervals as they
  are and makes no call on the audio engine (the sound ref is already null); it does show
  the result alert of its own argument once more.
\<close>

theorem stopSession_second_call:
  assumes "stopSession b s = Fulfilled s1"
  shows "stopSession b' s1 =
           Fulfilled (s1\<lparr>alerts := alerts s1 @ [if b' then SessionComplete else SessionFailed],
                          stops := stops s1 @ [b']\<rparr>)
    \<and> phase_of (detach (stopSession b' s1)) = phase_of s1
    \<and> audio_calls (detach (stopSession b' s1)) = audio_calls s1
    \<and> intervals (detach (stopSession b' s1)) = intervals s1
    \<and> timeRemaining (detach (stopSession b' s1)) = timeRemaining s1
    \<and> graceTimeRemaining (detach (stopSession b' s1)) = graceTimeRemaining s1"
proof -
  note refs = stopSession_Fulfilled_refs [OF assms]
  have eq: "stopSession b' s1 =
           Fulfilled (s1\<lparr>alerts := alerts s1 @ [if b' then SessionComplete else SessionFailed],
                          stops := stops s1 @ [b']\<rparr>)"
    using refs(1-3) by (simp add: stopSession_def Let_def clearGraceTimer_def show_alert_def)
  have "phase_of (s1\<lparr>alerts := alerts s1 @ [if b' then SessionComplete else SessionFailed],
                          stops := stops s1 @ [b']\<rparr>) = phase_of s1"
    using refs(4) by (cases "stops s1") (simp_all add: phase_of_def)
  with eq show ?thesis by simp
qed

theorem stopSession_second_call_witness:
  "stopSession True free_session = Fulfilled (detach (stopSession True free_session))
   \<and> alerts (detach (stopSession False (detach (stopSession True free_session))))
        = [SessionComplete, SessionFailed]
   \<and> phase_of (detach (stopSession False (detach (stopSession True free_session)))) = Completed
   \<and> audio_calls (detach (stopSession False (detach (stopSession True free_session))))
        = [StopAsync, UnloadAsync]"
proof -
  have h: "stopSession True free_session = Fulfilled (detach (stopSession True free_session))"
    by (simp add: handler_defs)
  show ?thesis
    using h stopSession_second_call [OF h, of False]
    by (simp add: handler_defs)
qed

section \<open>The grace period of a free user\<close>

text \<open>
  Time passes as firings of the armed intervals: each fires once a second, so the number
  of firings of the grace interval in a list of events is the number of whole seconds
  since the app left the foreground. A stay in the background is one background or
  inactive state followed by such firings and by nothing else.

  C2, as the specification has it, for every running session of a free user. It fails in
  two ways. A session with three seconds left that goes to the background is completed by
  its own countdown before the grace period ends: staying away ten seconds does not fail
  it, and coming back after five finds it completed, not running. And a grace interval
  that nothing refers to any more halves the grace period: after the app states inactive,
  background, active (handle 2 stays armed) the session is running, and one more stay in
  the background fails it after five seconds; the same happens when one stay in the
  background is announced by the two app states inactive and background.
\<close>

theorem grace_period_is_not_always_ten_seconds:
  "\<not> isPremium late_session
   \<and> phase_of late_session = Running
   \<and> timeRemaining late_session = 3
   \<and> intervals late_session = [(1, MainTimer)]
   \<and> phase_of (run (AppStateChange 0 ''background''
         # concat (replicate 10 [IntervalFire 1, IntervalFire 2])) late_session) = Completed
   \<and> alerts (run (AppStateChange 0 ''background''
         # concat (replicate 10 [IntervalFire 1, IntervalFire 2])) late_session) = [SessionComplete]
   \<and> phase_of (run (AppStateChange 0 ''background''
         # concat (replicate 5 [IntervalFire 1, IntervalFire 2]) @ [AppStateChange 5 ''active''])
         late_session) = Completed
   \<and> \<not> isPremium (run [AppStateChange 0 ''inactive'', AppStateChange 0 ''background'',
         AppStateChange 2 ''active''] free_session)
   \<and> phase_of (run [AppStateChange 0 ''inactive'', AppStateChange 0 ''background'',
         AppStateChange 2 ''active''] free_session) = Running
   \<and> intervals (run [AppStateChange 0 ''inactive'', AppStateChange 0 ''background'',
         AppStateChange 2 ''active''] free_session) = [(1, MainTimer), (2, GraceTimer)]
   \<and> phase_of (run (AppStateChange 20 ''background''
         # concat (replicate 5 [IntervalFire 1, IntervalFire 2, IntervalFire 4])
         @ [AppStateChange 25 ''active''])
         (run [AppStateChange 0 ''inactive'', AppStateChange 0 ''background'',
               AppStateChange 2 ''active''] free_session)) = Failed
   \<and> phase_of (run ([AppStateChange 0 ''inactive'', AppStateChange 0 ''background'']
         @ concat (replicate 5 [IntervalFire 1, IntervalFire 2, IntervalFire 3])
         @ [AppStateChange 5 ''active'']) free_session) = Failed"
  by code_simp

text \<open>
  C2, amended: take a running session of a free user whose only armed interval is the main
  one and whose countdown is at most \<open>2 ^ 53\<close>, and let one background or inactive state
  be followed by ticks of the main and of the new grace interval only. If the app is
  active again after fewer than ten grace ticks and before the countdown has run out, the
  session is running, the countdown has dropped by the number of main ticks and by nothing
  else, and no grace interval is left. If the tenth grace tick comes before the countdown
  has run out, the session has failed, whatever ticks follow: \<^verbatim>\<open>stopSession(false)\<close> was
  called once, no interval is armed, the countdown is frozen at its value at that tick,
  and the alert "Session Failed" is shown when the audio teardown goes through. If the
  last tick of the countdown comes before the tenth grace tick, the session is completed
  instead, whatever ticks follow and whether or not the app becomes active again.
\<close>

theorem background_grace_period:
  assumes free: "\<not> isPremium s" and running: "phase_of s = Running"
    and ref: "timerIntervalRef s = Some t" and only: "intervals s = [(t, MainTimer)]"
    and handle: "next_id s \<noteq> t"
    and bound: "timeRemaining s \<le> 2 ^ 53"
    and st: "st = ''background'' \<or> st = ''inactive''"
    and evs: "set evs \<subseteq> {IntervalFire t, IntervalFire (next_id s)}"
    and pre: "set pre \<subseteq> {IntervalFire t, IntervalFire (next_id s)}"
    and post: "set post \<subseteq> {IntervalFire t, IntervalFire (next_id s)}"
  shows "(int (count_list evs (IntervalFire (next_id s))) < 10
          \<and> int (count_list evs (IntervalFire t)) < timeRemaining s \<longrightarrow>
            phase_of (run (AppStateChange now st # evs @ [AppStateChange now' ''active'']) s) = Running
          \<and> timeRemaining (run (AppStateChange now st # evs @ [AppStateChange now' ''active'']) s)
              = timeRemaining s - int (count_list evs (IntervalFire t))
          \<and> intervals (run (AppStateChange now st # evs @ [AppStateChange now' ''active'']) s)
              = [(t, MainTimer)]
          \<and> stops (run (AppStateChange now st # evs @ [AppStateChange now' ''active'']) s) = []
          \<and> alerts (run (AppStateChange now st # evs @ [AppStateChange now' ''active'']) s) = alerts s)
    \<and> (count_list pre (IntervalFire (next_id s)) = 9
          \<and> int (count_list pre (IntervalFire t)) < timeRemaining s \<longrightarrow>
            phase_of (run (AppStateChange now st # pre @ IntervalFire (next_id s) # post) s) = Failed
          \<and> stops (run (AppStateChange now st # pre @ IntervalFire (next_id s) # post) s) = [False]
          \<and> intervals (run (AppStateChange now st # pre @ IntervalFire (next_id s) # post) s) = []
          \<and> timeRemaining (run (AppStateChange now st # pre @ IntervalFire (next_id s) # post) s)
              = timeRemaining s - int (count_list pre (IntervalFire t))
          \<and> (teardown_ok s \<longrightarrow>
                alerts (run (AppStateChange now st # pre @ IntervalFire (next_id s) # post) s)
                  = alerts s @ [SessionFailed]))
    \<and> (int (count_list pre (IntervalFire (next_id s))) < 10
          \<and> int (count_list pre (IntervalFire t)) = timeRemaining s - 1 \<longrightarrow>
            phase_of (run (AppStateChange now st # pre @ IntervalFire t # post) s) = Completed
          \<and> stops (run (AppStateChange now st # pre @ IntervalFire t # post) s) = [True]
          \<and> intervals (run (AppStateChange now st # pre @ IntervalFire t # post) s) = []
          \<and> timeRemaining (run (AppStateChange now st # pre @ IntervalFire t # post) s) = 0
          \<and> run (AppStateChange now st # pre @ IntervalFire t # post @ [AppStateChange now' ''active'']) s
              = run (AppStateChange now st # pre @ IntervalFire t # post) s
          \<and> (teardown_ok s \<longrightarrow>
                alerts (run (AppStateChange now st # pre @ IntervalFire t # post) s)
                  = alerts s @ [SessionComplete]))"
proof (intro conjI impI; (elim conjE)?)
  note rd = phase_RunningD [OF running]
  note fresh = conjunct1 [OF rd]
  {
    assume early: "int (count_list evs (IntervalFire (next_id s))) < 10"
      and main: "int (count_list evs (IntervalFire t)) < timeRemaining s"
    note eq = returned_in_time [OF free st only handle bound evs main early, of now now']
    show "phase_of (run (AppStateChange now st # evs @ [AppStateChange now' ''active'']) s) = Running"
      unfolding eq using rd by (simp add: phase_of_def)
    show "timeRemaining (run (AppStateChange now st # evs @ [AppStateChange now' ''active'']) s)
              = timeRemaining s - int (count_list evs (IntervalFire t))"
      unfolding eq by simp
    show "intervals (run (AppStateChange now st # evs @ [AppStateChange now' ''active'']) s)
              = [(t, MainTimer)]"
      unfolding eq using only by simp
    show "stops (run (AppStateChange now st # evs @ [AppStateChange now' ''active'']) s) = []"
      unfolding eq using fresh by simp
    show "alerts (run (AppStateChange now st # evs @ [AppStateChange now' ''active'']) s) = alerts s"
      unfolding eq by simp
  }
  {
    assume nine: "count_list pre (IntervalFire (next_id s)) = 9"
      and main: "int (count_list pre (IntervalFire t)) < timeRemaining s"
    note ge = grace_expired [OF free st only ref fresh handle bound pre post main nine, of now]
    show "stops (run (AppStateChange now st # pre @ IntervalFire (next_id s) # post) s) = [False]"
      by (rule ge(1))
    then show "phase_of (run (AppStateChange now st # pre @ IntervalFire (next_id s) # post) s) = Failed"
      by (simp add: phase_of_def)
    show "intervals (run (AppStateChange now st # pre @ IntervalFire (next_id s) # post) s) = []"
      by (rule ge(2))
    show "timeRemaining (run (AppStateChange now st # pre @ IntervalFire (next_id s) # post) s)
              = timeRemaining s - int (count_list pre (IntervalFire t))"
      by (rule ge(3))
    show "alerts (run (AppStateChange now st # pre @ IntervalFire (next_id s) # post) s)
              = alerts s @ [SessionFailed]"
      if "teardown_ok s"
      using that by (rule ge(4))
  }
  {
    assume early: "int (count_list pre (IntervalFire (next_id s))) < 10"
      and last: "int (count_list pre (IntervalFire t)) = timeRemaining s - 1"
    note cf = countdown_first [OF free st only ref fresh handle bound pre post last early, of now]
    show "stops (run (AppStateChange now st # pre @ IntervalFire t # post) s) = [True]"
      by (rule cf(1))
    then show "phase_of (run (AppStateChange now st # pre @ IntervalFire t # post) s) = Completed"
      by (simp add: phase_of_def)
    show "intervals (run (AppStateChange now st # pre @ IntervalFire t # post) s) = []"
      by (rule cf(2))
    show "timeRemaining (run (AppStateChange now st # pre @ IntervalFire t # post) s) = 0"
      by (rule cf(3))
    show "run (AppStateChange now st # pre @ IntervalFire t # post @ [AppStateChange now' ''active'']) s
              = run (AppStateChange now st # pre @ IntervalFire t # post) s"
      by (rule cf(4))
    show "alerts (run (AppStateChange now st # pre @ IntervalFire t # post) s)
              = alerts s @ [SessionComplete]"
      if "teardown_ok s"
      using that by (rule cf(5))
  }
qed

theorem background_grace_period_witness:
  "\<not> isPremium free_session \<and> phase_of free_session = Running
   \<and> timerIntervalRef free_session = Some 1 \<and> intervals free_session = [(1, MainTimer)]
   \<and> next_id free_session \<noteq> 1 \<and> timeRemaining free_session \<le> 2 ^ 53
   \<and> teardown_ok free_session
   \<and> phase_of (run (AppStateChange 5 ''background''
         # concat (replicate 3 [IntervalFire 1, IntervalFire 2]) @ [AppStateChange 8 ''active''])
         free_session) = Running
   \<and> timeRemaining (run (AppStateChange 5 ''background''
         # concat (replicate 3 [IntervalFire 1, IntervalFire 2]) @ [AppStateChange 8 ''active''])
         free_session) = 1797
   \<and> phase_of (run (AppStateChange 5 ''background''
         # (concat (replicate 9 [IntervalFire 1, IntervalFire 2]) @ [IntervalFire 1])
         @ IntervalFire 2 # [IntervalFire 1, IntervalFire 2]) free_session) = Failed
   \<and> timeRemaining (run (AppStateChange 5 ''background''
         # (concat (replicate 9 [IntervalFire 1, IntervalFire 2]) @ [IntervalFire 1])
         @ IntervalFire 2 # [IntervalFire 1, IntervalFire 2]) free_session) = 1790
   \<and> alerts (run (AppStateChange 5 ''background''
         # (concat (replicate 9 [IntervalFire 1, IntervalFire 2]) @ [IntervalFire 1])
         @ IntervalFire 2 # [IntervalFire 1, IntervalFire 2]) free_session) = [SessionFailed]
   \<and> \<not> isPremium late_session \<and> phase_of late_session = Running
   \<and> timerIntervalRef late_session = Some 1 \<and> intervals late_session = [(1, MainTimer)]
   \<and> next_id late_session \<noteq> 1 \<and> timeRemaining late_session \<le> 2 ^ 53
   \<and> phase_of (run (AppStateChange 5 ''background''
         # [IntervalFire 1, IntervalFire 2, IntervalFire 1, IntervalFire 2]
         @ IntervalFire 1 # [IntervalFire 2, IntervalFire 1]) late_session) = Completed
   \<and> timeRemaining (run (AppStateChange 5 ''background''
         # [IntervalFire 1, IntervalFire 2, IntervalFire 1, IntervalFire 2]
         @ IntervalFire 1 # [IntervalFire 2, IntervalFire 1]) late_session) = 0"
proof -
  have h: "\<not> isPremium free_session" "phase_of free_session = Running"
    "timerIntervalRef free_session = Some 1" "intervals free_session = [(1, MainTimer)]"
    "next_id free_session \<noteq> 1" "timeRemaining free_session \<le> 2 ^ 53"
    by (simp_all add: handler_defs)
  have v: "timeRemaining free_session = 1800" "next_id free_session = 2"
    "alerts free_session = []" "teardown_ok free_session"
    by (simp_all add: handler_defs teardown_ok_def)
  have l: "\<not> isPremium late_session" "phase_of late_session = Running"
    "timerIntervalRef late_session = Some 1" "intervals late_session = [(1, MainTimer)]"
    "next_id late_session \<noteq> 1" "timeRemaining late_session \<le> 2 ^ 53"
    by code_simp+
  have lv: "timeRemaining late_session = 3" "next_id late_session = 2"
    by code_simp+
  have st: "''background'' = ''background'' \<or> ''background'' = ''inactive''"
    by simp
  have e3: "set (concat (replicate 3 [IntervalFire 1, IntervalFire 2]))
      \<subseteq> {IntervalFire 1, IntervalFire (next_id free_session)}"
    unfolding v by code_simp
  have e9: "set (concat (replicate 9 [IntervalFire 1, IntervalFire 2]) @ [IntervalFire 1])
      \<subseteq> {IntervalFire 1, IntervalFire (next_id free_session)}"
    unfolding v by code_simp
  have e2: "set [IntervalFire 1, IntervalFire 2]
      \<subseteq> {IntervalFire 1, IntervalFire (next_id free_session)}"
    unfolding v by simp
  have c3: "count_list (concat (replicate 3 [IntervalFire 1, IntervalFire 2])) (IntervalFire 1) = 3"
    "count_list (concat (replicate 3 [IntervalFire 1, IntervalFire 2])) (IntervalFire 2) = 3"
    by code_simp+
  have c9: "count_list (concat (replicate 9 [IntervalFire 1, IntervalFire 2]) @ [IntervalFire 1])
               (IntervalFire 1) = 10"
    "count_list (concat (replicate 9 [IntervalFire 1, IntervalFire 2]) @ [IntervalFire 1])
               (IntervalFire 2) = 9"
    by code_simp+
  have le: "set [IntervalFire 1, IntervalFire 2, IntervalFire 1, IntervalFire 2]
      \<subseteq> {IntervalFire 1, IntervalFire (next_id late_session)}"
    "set [IntervalFire 2, IntervalFire 1]
      \<subseteq> {IntervalFire 1, IntervalFire (next_id late_session)}"
    unfolding lv by simp_all
  note a = background_grace_period [OF h st e3 e9 e2, of 5 8]
  note b = background_grace_period [OF l st le(1) le(1) le(2), of 5 8]
  show ?thesis
    using h v l lv c3 c9 a b
    by simp
qed

section \<open>App-state changes after the end\<close>

text \<open>
  C3, as the specification has it: once the outcome is reached, background and foreground
  events are ignored. The handlers do not look at the outcome. A one-minute session of a
  free user is completed by its countdown; the app then goes to the background, a grace
  interval is armed, and ten seconds later the alert "Session Failed" follows the alert
  "Session Complete".
\<close>

theorem background_after_completion_arms_grace:
  "phase_of ended_session = Completed
   \<and> alerts ended_session = [SessionComplete]
   \<and> intervals ended_session = []
   \<and> graceTimerRef (step (AppStateChange 0 ''background'') ended_session) = Some 2
   \<and> intervals (step (AppStateChange 0 ''background'') ended_session) = [(2, GraceTimer)]
   \<and> graceTimeRemaining (step (AppStateChange 0 ''background'') ended_session) = Some 10
   \<and> alerts (run (AppStateChange 0 ''background'' # replicate 10 (IntervalFire 2)) ended_session)
        = [SessionComplete, SessionFailed]"
  by code_simp

text \<open>
  C3, amended: once \<^verbatim>\<open>stopSession\<close> has been called, an app-state change never changes
  the phase, the outcome history, the alerts or the countdown; a premium session ignores
  it altogether, and a return to the foreground is ignored when no grace interval is
  referenced. For a free user a background or inactive state still arms a new grace
  interval and sets the grace countdown to ten.
\<close>

theorem app_state_after_terminal:
  assumes "stops s \<noteq> []"
  shows "phase_of (handleAppStateChange now st s) = phase_of s
    \<and> stops (handleAppStateChange now st s) = stops s
    \<and> alerts (handleAppStateChange now st s) = alerts s
    \<and> timeRemaining (handleAppStateChange now st s) = timeRemaining s
    \<and> (isPremium s \<longrightarrow> handleAppStateChange now st s = s)
    \<and> (graceTimerRef s = None \<longrightarrow> handleAppStateChange now ''active'' s = s)
    \<and> (\<not> isPremium s \<longrightarrow> st = ''background'' \<or> st = ''inactive'' \<longrightarrow>
          graceTimerRef (handleAppStateChange now st s) = Some (next_id s)
        \<and> graceTimeRemaining (handleAppStateChange now st s) = Some 10
        \<and> intervals (handleAppStateChange now st s) = intervals s @ [(next_id s, GraceTimer)])"
proof -
  obtain b bs where "stops s = b # bs"
    using assms by (cases "stops s") auto
  then show ?thesis
    by (simp add: handleAppStateChange_def handleAppBackground_def handleAppForeground_def
        setInterval_def clearGraceTimer_def clearInterval_def phase_of_def
        GRACE_PERIOD_SECONDS_def split: option.splits)
qed

theorem app_state_after_terminal_witness:
  "stops ended_session \<noteq> []
   \<and> \<not> isPremium ended_session
   \<and> phase_of (handleAppStateChange 0 ''background'' ended_session) = Completed
   \<and> graceTimerRef (handleAppStateChange 0 ''background'' ended_session) = Some 2
   \<and> intervals (handleAppStateChange 0 ''background'' ended_session) = [(2, GraceTimer)]
   \<and> handleAppStateChange 0 ''active'' ended_session = ended_session"
proof -
  have h: "stops ended_session \<noteq> []" by code_simp
  have p: "\<not> isPremium ended_session" by code_simp
  have g: "graceTimerRef ended_session = None" by code_simp
  have c: "phase_of ended_session = Completed" by code_simp
  have n: "next_id ended_session = 2" by code_simp
  have i: "intervals ended_session = []" by code_simp
  show ?thesis
    using app_state_after_terminal [OF h, of 0 "''background''"] h p g c n i
    by simp
qed

section \<open>The countdown\<close>

text \<open>
  C4, as the specification has it, for every positive number of seconds. Past \<open>2 ^ 53\<close>
  the doubles no longer hold every whole number, and subtracting 1 rounds back: a
  countdown of 600000000000000000 seconds is the same after every tick, so the tick
  leaves the whole state as it is and the session never completes.
\<close>

theorem countdown_stalls_past_two_to_53:
  "0 < timeRemaining far_session
   \<and> timeRemaining far_session = 600000000000000000
   \<and> map_of (intervals far_session) 1 = Some MainTimer
   \<and> fire 1 far_session = far_session
   \<and> timeRemaining (run (replicate 60 (IntervalFire 1)) far_session) = 600000000000000000
   \<and> stops (run (replicate 60 (IntervalFire 1)) far_session) = []
   \<and> phase_of (run (replicate 60 (IntervalFire 1)) far_session) = Running"
proof -
  have t: "timeRemaining far_session = 600000000000000000"
    by code_simp
  have m: "map_of (intervals far_session) 1 = Some MainTimer"
    by (simp add: mount_ready)
  have j: "js_minus 600000000000000000 1 = 600000000000000000"
    by code_simp
  have f: "fire 1 far_session = far_session"
    using t m j by (simp add: fire_def mainTick_def)
  from f have "fire (Suc 0) far_session = far_session"
    by simp
  then have r: "run (replicate k (IntervalFire 1)) far_session = far_session" for k
    by (induction k) simp_all
  have r60: "run (replicate 60 (IntervalFire 1)) far_session = far_session"
    by (rule r)
  have p: "stops far_session = []" "phase_of far_session = Running"
    by (simp_all add: mount_ready)
  show ?thesis
    unfolding r60 f using t m p by simp
qed

text \<open>
  C4, amended: with the main interval armed and a number of seconds on the countdown that
  is positive and at most \<open>2 ^ 53\<close>, the state after \<open>k\<close> ticks of the main interval has
  the countdown at the start value minus \<open>k\<close>, and at zero from then on, never below. The
  session is completed exactly from the tick whose number is the start value:
  \<^verbatim>\<open>handleSessionComplete\<close> has then been called once and is never called again, the main
  interval is armed before that tick and disarmed from it on, and the alert
  "Session Complete" is shown once when the audio teardown goes through.
\<close>

theorem main_timer_countdown:
  assumes ref: "timerIntervalRef s = Some t" and arm: "map_of (intervals s) t = Some MainTimer"
    and fresh: "stops s = []" and pos: "0 < timeRemaining s"
    and bound: "timeRemaining s \<le> 2 ^ 53"
  shows "timeRemaining (run (replicate k (IntervalFire t)) s) = max 0 (timeRemaining s - int k)
    \<and> stops (run (replicate k (IntervalFire t)) s) = (if int k < timeRemaining s then [] else [True])
    \<and> (phase_of (run (replicate k (IntervalFire t)) s) = Completed) = (timeRemaining s \<le> int k)
    \<and> armed t (run (replicate k (IntervalFire t)) s) = (int k < timeRemaining s)
    \<and> (teardown_ok s \<longrightarrow>
         alerts (run (replicate k (IntervalFire t)) s) =
           alerts s @ (if int k < timeRemaining s then [] else [SessionComplete]))"
proof (cases "int k < timeRemaining s")
  case True
  have "run (replicate k (IntervalFire t)) s = s\<lparr>timeRemaining := timeRemaining s - int k\<rparr>"
    using arm True bound by (rule main_ticks_before)
  moreover have "armed t s"
    using arm by (auto simp add: armed_def dest: map_of_SomeD intro: rev_image_eqI)
  ultimately show ?thesis
    using True fresh by (simp add: phase_of_def armed_def)
next
  case False
  define s1 where "s1 = s\<lparr>timeRemaining := 1\<rparr>"
  have eq: "run (replicate k (IntervalFire t)) s = (detach (stopSession True s1))\<lparr>timeRemaining := 0\<rparr>"
    unfolding s1_def using ref arm pos False bound by (intro main_ticks_from) simp_all
  have "\<not> armed t (detach (stopSession True s1))"
    using ref by (intro stopped_not_armed(1)) (simp add: s1_def)
  moreover have "stops (detach (stopSession True s1)) = [True]"
    using fresh by (simp add: stopSession_fields s1_def)
  moreover have "teardown_ok s \<Longrightarrow> alerts (detach (stopSession True s1)) = alerts s @ [SessionComplete]"
  proof -
    assume "teardown_ok s"
    then have "teardown_ok s1" by (simp add: teardown_ok_def s1_def)
    then show ?thesis using stopSession_alerts [of s1 True] by (simp add: s1_def)
  qed
  ultimately show ?thesis
    using False eq by (simp add: phase_of_def armed_def)
qed

theorem main_timer_countdown_witness:
  "timerIntervalRef free_session = Some 1
   \<and> map_of (intervals free_session) 1 = Some MainTimer
   \<and> stops free_session = []
   \<and> 0 < timeRemaining free_session
   \<and> timeRemaining free_session \<le> 2 ^ 53
   \<and> teardown_ok free_session
   \<and> timeRemaining (run (replicate 1799 (IntervalFire 1)) free_session) = 1
   \<and> phase_of (run (replicate 1799 (IntervalFire 1)) free_session) \<noteq> Completed
   \<and> timeRemaining (run (replicate 1800 (IntervalFire 1)) free_session) = 0
   \<and> phase_of (run (replicate 1800 (IntervalFire 1)) free_session) = Completed
   \<and> stops (run (replicate 1800 (IntervalFire 1)) free_session) = [True]
   \<and> alerts (run (replicate 1800 (IntervalFire 1)) free_session) = [SessionComplete]
   \<and> \<not> armed 1 (run (replicate 1800 (IntervalFire 1)) free_session)"
proof -
  have h: "timerIntervalRef free_session = Some 1"
    "map_of (intervals free_session) 1 = Some MainTimer"
    "stops free_session = []" "0 < timeRemaining free_session"
    "timeRemaining free_session \<le> 2 ^ 53"
    by (simp_all add: handler_defs)
  have v: "timeRemaining free_session = 1800" "alerts free_session = []"
    "teardown_ok free_session"
    by (simp_all add: handler_defs teardown_ok_def)
  show ?thesis
    using h v main_timer_countdown [OF h, of 1799] main_timer_countdown [OF h, of 1800]
    by simp
qed

section \<open>A track that is not in the list\<close>

text \<open>
  C5, as the specification has it: an unknown track fails the session and no timer is
  started. The mount effect starts the countdown whatever \<^verbatim>\<open>initializeAudio\<close> does: with
  a track id that is not in the list the alert "Music track not found" is shown, the
  session is running and the main interval is armed.
\<close>

theorem mount_unknown_track_starts_timer:
  "getTrackAssetById ''focus9'' = None
   \<and> phase_of (mount good_audio 30 ''focus9'' False) = Running
   \<and> alerts (mount good_audio 30 ''focus9'' False) = [TrackNotFound]
   \<and> timerIntervalRef (mount good_audio 30 ''focus9'' False) = Some 1
   \<and> intervals (mount good_audio 30 ''focus9'' False) = [(1, MainTimer)]"
  by (simp add: handler_defs)

text \<open>
  C5, amended: when the track id is not in the list, mounting shows one error alert
  ("Music track not found", or "Failed to load music track" when setting the audio mode
  already failed), loads no sound and calls nothing on the audio engine's sounds; the
  countdown starts at the full duration, the main interval is armed and the session is
  running.
\<close>

theorem mount_unknown_track:
  assumes "getTrackAssetById trackId = None"
  shows "mount env duration trackId premium =
     (initial duration premium)
       \<lparr>alerts := [if setAudioMode_ok env then TrackNotFound else LoadFailed],
        console := (if setAudioMode_ok env then [] else [''Error initializing audio:'']),
        intervals := [(1, MainTimer)], next_id := 2, timerIntervalRef := Some 1\<rparr>
    \<and> phase_of (mount env duration trackId premium) = Running
    \<and> soundRef (mount env duration trackId premium) = None
    \<and> timeRemaining (mount env duration trackId premium) = js_times duration 60
    \<and> audio_calls (mount env duration trackId premium) = []"
  using assms
  by (simp add: mount_def initial_def startTimer_def initializeAudio_def setInterval_def
      show_alert_def console_error_def phase_of_def)

theorem mount_unknown_track_witness:
  "getTrackAssetById ''focus9'' = None
   \<and> phase_of (mount good_audio 30 ''focus9'' False) = Running
   \<and> timeRemaining (mount good_audio 30 ''focus9'' False) = 1800
   \<and> soundRef (mount good_audio 30 ''focus9'' False) = None"
proof -
  have h: "getTrackAssetById ''focus9'' = None"
    by (simp add: getTrackAssetById_def musicTracks_def)
  show ?thesis
    using h mount_unknown_track [OF h, of good_audio 30 False]
    by (simp add: initial_def phase_of_def js_times_def double_of_int_safe)
qed

section \<open>Skipping\<close>

text \<open>
  C6, as the specification has it: on a premium session a skip request ends the session at
  once. The skip button of a premium user opens a dialog and changes nothing else: the
  session is running and the main interval armed until the dialog's Skip button is
  pressed, and the session then ends as completed.
\<close>

theorem handleSkip_premium_not_immediate:
  "isPremium premium_session
   \<and> phase_of premium_session = Running
   \<and> phase_of (run [SkipPressed] premium_session) = Running
   \<and> intervals (run [SkipPressed] premium_session) = [(1, MainTimer)]
   \<and> alerts (run [SkipPressed] premium_session) = [SkipDialog]
   \<and> phase_of (run [SkipPressed, SkipConfirmed] premium_session) = Completed
   \<and> alerts (run [SkipPressed, SkipConfirmed] premium_session) = [SkipDialog, SessionComplete]"
  by (simp add: handler_defs)

text \<open>
  C6, amended: a skip request changes nothing but the alerts: a free user gets the notice
  that skipping is a premium feature, a premium user the dialog that asks for
  confirmation; the phase and the armed intervals stay. Pressing Skip in the dialog calls
  \<^verbatim>\<open>stopSession(true)\<close>: the main interval and the referenced grace interval are disarmed
  and both refs are null, and a session not yet ended is completed (the screen has no
  skipped outcome).
\<close>

theorem handleSkip_then_confirm:
  "handleSkip s = s\<lparr>alerts := alerts s @ [if isPremium s then SkipDialog else PremiumFeature]\<rparr>
   \<and> phase_of (handleSkip s) = phase_of s
   \<and> intervals (handleSkip s) = intervals s
   \<and> timerIntervalRef (skipDialog_onSkip s) = None
   \<and> graceTimerRef (skipDialog_onSkip s) = None
   \<and> (\<forall>t. timerIntervalRef s = Some t \<or> graceTimerRef s = Some t \<longrightarrow> \<not> armed t (skipDialog_onSkip s))
   \<and> (stops s = [] \<longrightarrow> phase_of (skipDialog_onSkip s) = Completed)
   \<and> phase_of (skipDialog_onSkip s) \<noteq> Skipped"
proof -
  have a: "handleSkip s = s\<lparr>alerts := alerts s @ [if isPremium s then SkipDialog else PremiumFeature]\<rparr>"
    by (simp add: handleSkip_def show_alert_def)
  have b: "phase_of (handleSkip s) = phase_of s"
    by (auto simp add: handleSkip_def show_alert_def phase_of_def)
  have c: "intervals (handleSkip s) = intervals s"
    by (simp add: handleSkip_def show_alert_def)
  have d: "timerIntervalRef (skipDialog_onSkip s) = None"
    and e: "graceTimerRef (skipDialog_onSkip s) = None"
    by (simp_all add: skipDialog_onSkip_def stopSession_fields)
  have f: "\<forall>t. timerIntervalRef s = Some t \<or> graceTimerRef s = Some t \<longrightarrow>
             \<not> armed t (skipDialog_onSkip s)"
    using stopped_not_armed [of s _ True] by (auto simp add: skipDialog_onSkip_def)
  have g: "stops s = [] \<longrightarrow> phase_of (skipDialog_onSkip s) = Completed"
    by (simp add: phase_of_def skipDialog_onSkip_def stopSession_fields)
  have h: "phase_of (skipDialog_onSkip s) \<noteq> Skipped"
    by (simp add: phase_of_def split: list.splits)
  show ?thesis
    by (intro conjI a b c d e f g h)
qed

theorem handleSkip_then_confirm_witness:
  "stops premium_session = [] \<and> timerIntervalRef premium_session = Some 1
   \<and> phase_of (handleSkip premium_session) = Running
   \<and> \<not> armed 1 (skipDialog_onSkip premium_session)
   \<and> phase_of (skipDialog_onSkip premium_session) = Completed"
proof -
  have h: "stops premium_session = []" "timerIntervalRef premium_session = Some 1"
    "phase_of premium_session = Running"
    by (simp_all add: handler_defs)
  note t = handleSkip_then_confirm [of premium_session]
  from t have "phase_of (handleSkip premium_session) = phase_of premium_session"
    by blast
  moreover from t h(2) have "\<not> armed 1 (skipDialog_onSkip premium_session)"
    by blast
  moreover from t h(1) have "phase_of (skipDialog_onSkip premium_session) = Completed"
    by blast
  ultimately show ?thesis using h by simp
qed

section \<open>A failing audio teardown\<close>

text \<open>
  C7 says that a failure of the audio teardown inside \<^verbatim>\<open>stopSession\<close> is swallowed and
  the notification still follows. \<^verbatim>\<open>stopSession\<close> awaits \<^verbatim>\<open>stopAsync\<close> and \<^verbatim>\<open>unloadAsync\<close>
  outside any \<^verbatim>\<open>try\<close>, unlike \<^verbatim>\<open>cleanup\<close>. On a premium session whose sound rejects
  \<^verbatim>\<open>stopAsync\<close>, a confirmed skip leaves the promise of \<^verbatim>\<open>stopSession\<close> rejected and
  unhandled: the timers are cleared, no result alert is shown, \<^verbatim>\<open>unloadAsync\<close> is never
  called and the sound ref keeps the sound. \<^verbatim>\<open>cleanup\<close> on the same session logs the
  error and is fulfilled.
\<close>

theorem stopSession_teardown_rejects:
  "soundRef (mount stuck_audio 30 ''focus1'' True) = Some (Sound False True)
   \<and> stopSession True (mount stuck_audio 30 ''focus1'' True)
       = Rejected ((mount stuck_audio 30 ''focus1'' True)
           \<lparr>timerIntervalRef := None, intervals := [], audio_calls := [StopAsync], stops := [True]\<rparr>)
   \<and> alerts (run [SkipPressed, SkipConfirmed] (mount stuck_audio 30 ''focus1'' True)) = [SkipDialog]
   \<and> unhandled (run [SkipPressed, SkipConfirmed] (mount stuck_audio 30 ''focus1'' True)) = 1
   \<and> audio_calls (run [SkipPressed, SkipConfirmed] (mount stuck_audio 30 ''focus1'' True)) = [StopAsync]
   \<and> soundRef (run [SkipPressed, SkipConfirmed] (mount stuck_audio 30 ''focus1'' True))
        = Some (Sound False True)
   \<and> cleanup (mount stuck_audio 30 ''focus1'' True)
       = Fulfilled ((mount stuck_audio 30 ''focus1'' True)
           \<lparr>intervals := [], audio_calls := [StopAsync], console := [''Error cleaning up audio:'']\<rparr>)"
  by (simp add: handler_defs)

section \<open>Grace intervals left behind\<close>

text \<open>
  C8 says that entering the background disarms a grace interval that is still armed before
  it arms a new one. \<^verbatim>\<open>handleAppBackground\<close> overwrites the ref without clearing. When a
  free user's app goes inactive and then to the background, two grace intervals are armed
  and the ref holds the second; the return to the foreground clears the second only, and
  so does \<^verbatim>\<open>stopSession\<close>: the first keeps firing and nothing refers to it.
\<close>

theorem background_twice_leaves_stale_grace_timer:
  "intervals (run [AppStateChange 0 ''inactive'', AppStateChange 1 ''background''] free_session)
     = [(1, MainTimer), (2, GraceTimer), (3, GraceTimer)]
   \<and> graceTimerRef (run [AppStateChange 0 ''inactive'', AppStateChange 1 ''background''] free_session)
     = Some 3
   \<and> intervals (run [AppStateChange 0 ''inactive'', AppStateChange 1 ''background'',
                      AppStateChange 2 ''active''] free_session)
     = [(1, MainTimer), (2, GraceTimer)]
   \<and> graceTimerRef (run [AppStateChange 0 ''inactive'', AppStateChange 1 ''background'',
                      AppStateChange 2 ''active''] free_session) = None
   \<and> intervals (detach (stopSession True
        (run [AppStateChange 0 ''inactive'', AppStateChange 1 ''background''] free_session)))
     = [(2, GraceTimer)]"
  by (simp add: handler_defs)

section \<open>A duration that is not positive\<close>

text \<open>
  C9, as the specification has it: with a duration of zero or less the session completes at
  once and no tick is scheduled. \<^verbatim>\<open>startTimer\<close> arms the interval whatever the duration:
  mounted with duration zero, the session is running, nothing has been notified and the
  main interval is armed.
\<close>

theorem mount_zero_duration_schedules_tick:
  "timeRemaining (mount good_audio 0 ''focus1'' False) = 0
   \<and> intervals (mount good_audio 0 ''focus1'' False) = [(1, MainTimer)]
   \<and> stops (mount good_audio 0 ''focus1'' False) = []
   \<and> alerts (mount good_audio 0 ''focus1'' False) = []
   \<and> phase_of (mount good_audio 0 ''focus1'' False) = Running"
  by (simp add: handler_defs)

text \<open>
  C9, amended: with a duration of zero or less the main interval is armed all the same and
  the session is running until the interval fires; its first tick, a second later,
  completes the session, sets the countdown to zero and disarms the interval.
\<close>

theorem mount_nonpositive_duration:
  assumes "duration * 60 \<le> 0"
  shows "intervals (mount env duration trackId premium) = [(1, MainTimer)]
    \<and> timerIntervalRef (mount env duration trackId premium) = Some 1
    \<and> stops (mount env duration trackId premium) = []
    \<and> phase_of (mount env duration trackId premium) = Running
    \<and> stops (fire 1 (mount env duration trackId premium)) = [True]
    \<and> phase_of (fire 1 (mount env duration trackId premium)) = Completed
    \<and> timeRemaining (fire 1 (mount env duration trackId premium)) = 0
    \<and> intervals (fire 1 (mount env duration trackId premium)) = []"
proof -
  define s where "s = initializeAudio env trackId (initial duration premium)"
  have s: "intervals s = []" "next_id s = 1" "stops s = []"
    "timeRemaining s = js_times duration 60" "graceTimerRef s = None"
    by (simp_all add: s_def initializeAudio_def initial_def show_alert_def console_error_def
        split: option.splits)
  have "js_times duration 60 \<le> 0"
    unfolding js_times_def using assms by (rule double_of_int_nonpos)
  then have le: "timeRemaining s \<le> 1"
    using s by simp
  have m: "mount env duration trackId premium =
             s\<lparr>intervals := [(1, MainTimer)], next_id := 2, timerIntervalRef := Some 1\<rparr>"
    using s by (simp add: mount_def s_def [symmetric] startTimer_def setInterval_def)
  show ?thesis
    unfolding m using s(1-3,5) le
    by (simp add: fire_def mainTick_def handleSessionComplete_def stopSession_fields phase_of_def)
qed

theorem mount_nonpositive_duration_witness:
  "(0::int) * 60 \<le> 0
   \<and> intervals (mount good_audio 0 ''focus1'' False) = [(1, MainTimer)]
   \<and> phase_of (mount good_audio 0 ''focus1'' False) = Running
   \<and> phase_of (fire 1 (mount good_audio 0 ''focus1'' False)) = Completed"
  using mount_nonpositive_duration [of 0 good_audio "''focus1''" False] by simp

section \<open>App-state values the screen does not know\<close>

text \<open>
  C10. An app-state value other than \<^verbatim>\<open>background\<close>, \<^verbatim>\<open>inactive\<close> and \<^verbatim>\<open>active\<close> leaves
  the whole state as it is: no interval armed or cleared, no cell or ref written.
\<close>

theorem handleAppStateChange_other:
  assumes "nextAppState \<noteq> ''background''" and "nextAppState \<noteq> ''inactive''"
    and "nextAppState \<noteq> ''active''"
  shows "handleAppStateChange now nextAppState s = s"
  using assms by (simp add: handleAppStateChange_def)

theorem handleAppStateChange_other_witness:
  "handleAppStateChange 0 ''unknown'' (mount \<lparr>setAudioMode_ok = True, createAsync_result = Some (Sound True True)\<rparr> 30 ''focus1'' False)
     = mount \<lparr>setAudioMode_ok = True, createAsync_result = Some (Sound True True)\<rparr> 30 ''focus1'' False
   \<and> handleAppStateChange 0 ''extension'' (initial 30 True) = initial 30 True"
  using handleAppStateChange_other [of "''unknown''" 0]
    handleAppStateChange_other [of "''extension''" 0]
  by simp

end
